theory Spec2Isabelle
  imports Main "HOL-Library.Word"
begin

section \<open>JavaScript strings\<close>

text \<open>
  A JavaScript string is a sequence of UTF-16 code units. The functions of
  \<^verbatim>\<open>utils.js\<close> work on code units (\<^verbatim>\<open>startsWith\<close>, \<^verbatim>\<open>endsWith\<close>, \<^verbatim>\<open>slice\<close>, regular
  expressions without the \<^verbatim>\<open>u\<close> flag), so a string is a list of 16-bit words.
\<close>

type_synonym jschar = "16 word"
type_synonym jsstr = "jschar list"

definition ascii :: "string \<Rightarrow> jsstr" where
  "ascii s = map (\<lambda>c. of_nat (of_char c)) s"

definition startsWith :: "jsstr \<Rightarrow> jsstr \<Rightarrow> bool" where
  "startsWith s p = (take (length p) s = p)"

definition endsWithChar :: "jsstr \<Rightarrow> jschar \<Rightarrow> bool" where
  "endsWithChar s c = (s \<noteq> [] \<and> last s = c)"

text \<open>\<^verbatim>\<open>String.prototype.trim\<close> strips WhiteSpace and LineTerminator code units.\<close>

definition isWhiteSpace :: "jschar \<Rightarrow> bool" where
  "isWhiteSpace c =
     (c = 0x09 \<or> c = 0x0A \<or> c = 0x0B \<or> c = 0x0C \<or> c = 0x0D \<or> c = 0x20 \<or> c = 0xA0 \<or>
      c = 0x1680 \<or> (0x2000 \<le> c \<and> c \<le> 0x200A) \<or> c = 0x2028 \<or> c = 0x2029 \<or>
      c = 0x202F \<or> c = 0x205F \<or> c = 0x3000 \<or> c = 0xFEFF)"

definition trim :: "jsstr \<Rightarrow> jsstr" where
  "trim s = rev (dropWhile isWhiteSpace (rev (dropWhile isWhiteSpace s)))"

definition isDigit :: "jschar \<Rightarrow> bool" where
  "isDigit c = (0x30 \<le> c \<and> c \<le> 0x39)"

text \<open>The character class from U+4E00 to U+9FA5 of the test for ideographs.\<close>

definition isCJK :: "jschar \<Rightarrow> bool" where
  "isCJK c = (0x4E00 \<le> c \<and> c \<le> 0x9FA5)"

text \<open>Number to string, as in the template \<^verbatim>\<open>`param${paramIndex}`\<close>.\<close>

function decimal :: "nat \<Rightarrow> jsstr" where
  "decimal n = (if n < 10 then [of_nat (48 + n)]
                else decimal (n div 10) @ [of_nat (48 + n mod 10)])"
  by pat_completeness auto
termination
  by (relation "measure id") auto

declare decimal.simps [simp del]

section \<open>Text classifier and normalizer (utils.js)\<close>

text \<open>
  \<^verbatim>\<open>isOnlyChinese\<close>: false for the empty string, for a string that is empty after
  \<^verbatim>\<open>trim\<close>, and for a string of ASCII digits only (\<^verbatim>\<open>/^\d+$/\<close>); otherwise whether the
  trimmed string has a code unit in U+4E00..U+9FA5.
\<close>

definition isOnlyChinese :: "jsstr \<Rightarrow> bool" where
  "isOnlyChinese str =
     (if str = [] then False
      else let s = trim str in
        if length s = 0 then False
        else if list_all isDigit s then False
        else list_ex isCJK s)"

definition cleanString :: "jsstr \<Rightarrow> jsstr" where
  "cleanString str = (if str = [] then [] else trim str)"

record colon_suffix =
  hasColonSuffix :: bool
  colonChar :: jsstr
  textWithoutColon :: jsstr

text \<open>The full-width colon is U+FF1A, the ASCII colon U+003A.\<close>

definition detectColonSuffix :: "jsstr \<Rightarrow> colon_suffix" where
  "detectColonSuffix str =
     (if str = [] then
        \<lparr>hasColonSuffix = False, colonChar = [], textWithoutColon = str\<rparr>
      else if endsWithChar str 0xFF1A then
        \<lparr>hasColonSuffix = True, colonChar = [0xFF1A], textWithoutColon = butlast str\<rparr>
      else if endsWithChar str 0x3A then
        \<lparr>hasColonSuffix = True, colonChar = [0x3A], textWithoutColon = butlast str\<rparr>
      else \<lparr>hasColonSuffix = False, colonChar = [], textWithoutColon = str\<rparr>)"

section \<open>Dictionary index (utils.js)\<close>

text \<open>
  The loaded language pack is nested data: an object is its list of properties in
  \<^verbatim>\<open>for ... in\<close> order, a leaf is a string or something else (number, array, null),
  which \<^verbatim>\<open>flattenI18nObject\<close> ignores.
\<close>

datatype jsvalue = JString jsstr | JObject "(jsstr \<times> jsvalue) list" | JOther

text \<open>
  A value of \<^verbatim>\<open>i18nMap\<close> is one key (a string) or an array of keys. The array is
  created with two elements and only grows, so it is a first key and the rest.
\<close>

datatype entry = SingleKey jsstr | KeyList jsstr "jsstr list"

type_synonym i18n_map = "jsstr \<rightharpoonup> entry"

text \<open>
  One leaf of \<^verbatim>\<open>flattenI18nObject\<close>: \<^verbatim>\<open>if (existing)\<close> is false for a missing entry and
  for the empty string, true for an array and a non-empty key.
\<close>

definition addLeaf :: "jsstr \<Rightarrow> jsstr \<Rightarrow> i18n_map \<Rightarrow> i18n_map" where
  "addLeaf fullKey v result =
     (let t = textWithoutColon (detectColonSuffix v) in
      case result t of
        Some (KeyList k ks) \<Rightarrow> result(t \<mapsto> KeyList k (ks @ [fullKey]))
      | Some (SingleKey k) \<Rightarrow>
          if k \<noteq> [] then result(t \<mapsto> KeyList k [fullKey])
          else result(t \<mapsto> SingleKey fullKey)
      | None \<Rightarrow> result(t \<mapsto> SingleKey fullKey))"

fun flattenI18nObject :: "(jsstr \<times> jsvalue) list \<Rightarrow> jsstr \<Rightarrow> i18n_map \<Rightarrow> i18n_map"
  and flattenValue :: "jsvalue \<Rightarrow> jsstr \<Rightarrow> i18n_map \<Rightarrow> i18n_map" where
  "flattenI18nObject [] prefix result = result"
| "flattenI18nObject ((key, v) # rest) prefix result =
     flattenI18nObject rest prefix
       (flattenValue v (if prefix \<noteq> [] then prefix @ ascii ''.'' @ key else key) result)"
| "flattenValue (JObject props) fullKey result = flattenI18nObject props fullKey result"
| "flattenValue (JString v) fullKey result = addLeaf fullKey v result"
| "flattenValue JOther fullKey result = result"

text \<open>
  The module state of \<^verbatim>\<open>utils.js\<close>: the map, the set of unmatched texts (a
  \<^verbatim>\<open>Set\<close> keeps insertion order and no duplicates) and the two options.
\<close>

record conv_state =
  i18nMap :: i18n_map
  unmatchedTexts :: "jsstr list"
  skipUnmatched :: bool
  matchPath :: "jsstr option"

definition setAdd :: "jsstr \<Rightarrow> jsstr list \<Rightarrow> jsstr list" where
  "setAdd x xs = (if x \<in> set xs then xs else xs @ [x])"

text \<open>\<^verbatim>\<open>if (matchPath)\<close>: null and the empty string are false.\<close>

definition pathSet :: "conv_state \<Rightarrow> bool" where
  "pathSet st = (case matchPath st of None \<Rightarrow> False | Some p \<Rightarrow> p \<noteq> [])"

definition pathDot :: "conv_state \<Rightarrow> jsstr" where
  "pathDot st = (case matchPath st of None \<Rightarrow> ascii ''null.'' | Some p \<Rightarrow> p @ ascii ''.'')"

definition setConvertOptions :: "bool \<Rightarrow> jsstr option \<Rightarrow> conv_state \<Rightarrow> conv_state" where
  "setConvertOptions skip path st =
     st\<lparr>skipUnmatched := skip,
        matchPath := (case path of None \<Rightarrow> None | Some p \<Rightarrow> if p = [] then None else Some p)\<rparr>"

definition resetUnmatchedTexts :: "conv_state \<Rightarrow> conv_state" where
  "resetUnmatchedTexts st = st\<lparr>unmatchedTexts := []\<rparr>"

definition isKeyPathMatched :: "conv_state \<Rightarrow> jsstr \<Rightarrow> bool" where
  "isKeyPathMatched st key =
     (if \<not> pathSet st then True
      else if startsWith key (ascii ''common.'') then True
      else if startsWith key (pathDot st) then True
      else False)"

text \<open>
  The three places of \<^verbatim>\<open>getKeyForChinese\<close> that treat the text as not found do the
  same: add it to \<^verbatim>\<open>unmatchedTexts\<close>, then return null (\<open>None\<close>) when
  \<^verbatim>\<open>skipUnmatched\<close> is set and the text itself otherwise.
\<close>

definition notFound :: "jsstr \<Rightarrow> conv_state \<Rightarrow> jsstr option \<times> conv_state" where
  "notFound chineseText st =
     (if skipUnmatched st then None else Some chineseText,
      st\<lparr>unmatchedTexts := setAdd chineseText (unmatchedTexts st)\<rparr>)"

definition getKeyForChinese :: "jsstr \<Rightarrow> conv_state \<Rightarrow> jsstr option \<times> conv_state" where
  "getKeyForChinese chineseText st =
     (case i18nMap st chineseText of
        None \<Rightarrow> notFound chineseText st
      | Some (SingleKey key) \<Rightarrow>
          if \<not> isKeyPathMatched st key then notFound chineseText st
          else (Some key, st)
      | Some (KeyList k ks) \<Rightarrow>
          (case find (\<lambda>c. startsWith c (ascii ''common.'')) (k # ks) of
             Some commonKey \<Rightarrow> (Some commonKey, st)
           | None \<Rightarrow>
               (case (if pathSet st then find (\<lambda>c. startsWith c (pathDot st)) (k # ks)
                      else None) of
                  Some matchPathKey \<Rightarrow> (Some matchPathKey, st)
                | None \<Rightarrow>
                    if \<not> isKeyPathMatched st k then notFound chineseText st
                    else (Some k, st))))"

text \<open>The states of a run: the index of a language pack, nothing unmatched yet.\<close>

definition initState :: "i18n_map \<Rightarrow> bool \<Rightarrow> jsstr option \<Rightarrow> conv_state" where
  "initState m skip path =
     setConvertOptions skip path
       \<lparr>i18nMap = m, unmatchedTexts = [], skipUnmatched = False, matchPath = None\<rparr>"

text \<open>
  The priority order in the words of the specification: the first-seen key with a
  given prefix among the candidates.
\<close>

definition firstWithPrefix :: "jsstr \<Rightarrow> jsstr list \<Rightarrow> jsstr" where
  "firstWithPrefix p keys = hd (filter (\<lambda>c. startsWith c p) keys)"

section \<open>Example dictionaries\<close>

text \<open>A text with the candidate keys a.x, common.y, b.z in that order, and with a.x, b.z.\<close>

definition textT :: jsstr where
  "textT = ascii ''T''"

definition abcState :: "jsstr option \<Rightarrow> conv_state" where
  "abcState path =
     initState (Map.empty(textT \<mapsto> KeyList (ascii ''a.x'') [ascii ''common.y'', ascii ''b.z'']))
       False path"

definition abState :: "jsstr option \<Rightarrow> conv_state" where
  "abState path =
     initState (Map.empty(textT \<mapsto> KeyList (ascii ''a.x'') [ascii ''b.z''])) False path"

text \<open>
  The language packs \<^verbatim>\<open>{pda: {a: T}, other: {a: T}}\<close> and \<^verbatim>\<open>{other: {a: T}}\<close> for the
  text T = U+6587 U+672C, flattened and used with \<^verbatim>\<open>--match-path pda\<close>.
\<close>

definition wenben :: jsstr where
  "wenben = [0x6587, 0x672C]"

definition pdaOtherPack :: "(jsstr \<times> jsvalue) list" where
  "pdaOtherPack =
     [(ascii ''pda'', JObject [(ascii ''a'', JString wenben)]),
      (ascii ''other'', JObject [(ascii ''a'', JString wenben)])]"

definition otherPack :: "(jsstr \<times> jsvalue) list" where
  "otherPack = [(ascii ''other'', JObject [(ascii ''a'', JString wenben)])]"

definition packState :: "(jsstr \<times> jsvalue) list \<Rightarrow> bool \<Rightarrow> conv_state" where
  "packState pack skip =
     initState (flattenI18nObject pack [] Map.empty) skip (Some (ascii ''pda''))"

section \<open>Regular-expression matches\<close>

text \<open>
  \<^verbatim>\<open>str.replace(re, callback)\<close> with a global pattern calls the callback on each match,
  left to right, and joins the text between the matches with what the callback
  returns. The matches of a pattern in a string are a list of (text before the match,
  matched text, capture groups) and the text after the last match. Every group of the
  patterns below takes part in every match, so a match of a pattern with n groups
  carries n strings, which the callbacks read by position. Which spans a pattern
  matches is left to the engine: a pass is given as a function of the matches.
\<close>

type_synonym rx_match = "jsstr \<times> jsstr \<times> jsstr list"
type_synonym rx_split = "rx_match list \<times> jsstr"


fun replaceAll :: "(jsstr \<Rightarrow> jsstr list \<Rightarrow> 's \<Rightarrow> jsstr \<times> 's) \<Rightarrow> rx_split \<Rightarrow> 's \<Rightarrow> jsstr \<times> 's" where
  "replaceAll f ([], after) st = (after, st)"
| "replaceAll f ((before, m, gs) # ms, after) st =
     (case f m gs st of (out, st1) \<Rightarrow>
        (case replaceAll f (ms, after) st1 of (r, st2) \<Rightarrow> (before @ out @ r, st2)))"

fun includesStr :: "jsstr \<Rightarrow> jsstr \<Rightarrow> bool" where
  "includesStr [] sub = (sub = [])"
| "includesStr (c # s) sub = (startsWith (c # s) sub \<or> includesStr s sub)"

text \<open>
  The pattern \<^verbatim>\<open>/\$\{([^}]+)\}/g\<close>: a dollar sign, an opening brace, one or more code
  units other than a closing brace, a closing brace. The first argument collects the
  text since the last match.
\<close>

function scanVars :: "jsstr \<Rightarrow> jsstr \<Rightarrow> rx_split" where
  "scanVars acc [] = ([], acc)"
| "scanVars acc (c # s) =
     (if c = 0x24 \<and> startsWith s [0x7B] then
        (let body = takeWhile (\<lambda>x. x \<noteq> 0x7D) (tl s);
             rest = dropWhile (\<lambda>x. x \<noteq> 0x7D) (tl s)
         in if body \<noteq> [] \<and> rest \<noteq> [] then
              (case scanVars [] (tl rest) of
                 (ms, after) \<Rightarrow> ((acc, [0x24, 0x7B] @ body @ [0x7D], [body]) # ms, after))
            else scanVars (acc @ [c]) s)
      else scanVars (acc @ [c]) s)"
  by pat_completeness auto
termination
proof (relation "measure (\<lambda>(acc, s). length s)")
  fix acc :: jsstr and c :: jschar and s body rest :: jsstr
  assume "rest = dropWhile (\<lambda>x. x \<noteq> 0x7D) (tl s)"
  then have "length rest \<le> length s"
    using length_dropWhile_le [of "\<lambda>x. x \<noteq> 0x7D" "tl s"] by simp
  then show "(([], tl rest), (acc, c # s)) \<in> measure (\<lambda>(acc, s). length s)"
    by simp
qed simp_all




section \<open>Interpolation variables (utils.js)\<close>

record template_vars =
  vtext :: jsstr
  params :: "(jsstr \<times> jsstr) list"
  hasChinese :: bool

text \<open>
  The callback of the second \<^verbatim>\<open>replace\<close> in \<^verbatim>\<open>extractTemplateVars\<close>; its state is
  \<^verbatim>\<open>paramIndex\<close> and \<^verbatim>\<open>params\<close>, a parameter is its name and its trimmed expression.
\<close>

definition paramCallback :: "jsstr \<Rightarrow> jsstr list \<Rightarrow> nat \<times> (jsstr \<times> jsstr) list \<Rightarrow> jsstr \<times> nat \<times> (jsstr \<times> jsstr) list" where
  "paramCallback m gs st =
     (case st of (paramIndex, ps) \<Rightarrow>
        (let paramName = ascii ''param'' @ decimal paramIndex
         in ([0x7B] @ paramName @ [0x7D], (paramIndex + 1, ps @ [(paramName, trim (hd gs))]))))"

definition extractTemplateVars :: "jsstr \<Rightarrow> template_vars" where
  "extractTemplateVars template =
     (let textWithoutVars = fst (replaceAll (\<lambda>m gs u. ([], u)) (scanVars [] template) ());
          r = replaceAll paramCallback (scanVars [] template) (1, [])
      in \<lparr>vtext = fst r, params = snd (snd r), hasChinese = isOnlyChinese textWithoutVars\<rparr>)"

section \<open>Markup rewriter (templateParser.js)\<close>


definition tCall :: "jsstr \<Rightarrow> jsstr" where
  "tCall key = ascii ''$t('' @ [0x27] @ key @ [0x27] @ ascii '')''"

definition tCallParams :: "jsstr \<Rightarrow> (jsstr \<times> jsstr) list \<Rightarrow> jsstr" where
  "tCallParams key ps =
     ascii ''$t('' @ [0x27] @ key @ [0x27] @ ascii '', { '' @
     concat (case map (\<lambda>(name, expr). name @ ascii '': '' @ expr) ps of
               [] \<Rightarrow> [] | x # xs \<Rightarrow> x # map (\<lambda>y. ascii '', '' @ y) xs) @
     ascii '' })''"



text \<open>
  The body shared by pass 1.5 and pass 5: a template string inside an interpolation
  or inside a bound attribute. \<open>wrap\<close> puts the text of the pass around the call.
\<close>

definition templateCall :: "jsstr \<Rightarrow> (jsstr \<Rightarrow> jsstr) \<Rightarrow> jsstr \<Rightarrow> conv_state \<Rightarrow> jsstr \<times> conv_state" where
  "templateCall m wrap templateContent st =
     (let v = extractTemplateVars templateContent in
      if hasChinese v then
        (let cleaned = cleanString (vtext v); d = detectColonSuffix cleaned in
         if hasColonSuffix d then
           (case getKeyForChinese (textWithoutColon d) st of
              (None, st') \<Rightarrow> (m, st')
            | (Some key, st') \<Rightarrow>
                if length (params v) > 0
                then (wrap (tCallParams key (params v) @ ascii '' + '' @ [0x27] @ colonChar d @ [0x27]), st')
                else (wrap (tCall key @ ascii '' + '' @ [0x27] @ colonChar d @ [0x27]), st'))
         else
           (case getKeyForChinese cleaned st of
              (None, st') \<Rightarrow> (m, st')
            | (Some key, st') \<Rightarrow>
                if length (params v) > 0 then (wrap (tCallParams key (params v)), st')
                else (wrap (tCall key), st')))
      else (m, st))"

text \<open>Pass 1.5: \<^verbatim>\<open>{{ `text${expr}` }}\<close>.\<close>

definition cbInterpTemplate :: "jsstr \<Rightarrow> jsstr list \<Rightarrow> conv_state \<Rightarrow> jsstr \<times> conv_state" where
  "cbInterpTemplate m gs st =
     (if includesStr m (ascii ''$t('') then (m, st)
      else templateCall m (\<lambda>c. ascii ''{{ '' @ c @ ascii '' }}'') (hd gs) st)"







text \<open>
  A text has no usable key when it has no entry, or none of the candidate keys of its
  entry satisfies the scope rule.
\<close>

definition noUsableKey :: "conv_state \<Rightarrow> jsstr \<Rightarrow> bool" where
  "noUsableKey st t =
     (case i18nMap st t of
        None \<Rightarrow> True
      | Some (SingleKey k) \<Rightarrow> \<not> isKeyPathMatched st k
      | Some (KeyList k ks) \<Rightarrow> list_all (\<lambda>c. \<not> isKeyPathMatched st c) (k # ks))"

text \<open>The text that a rewrite looks up: cleaned, without the trailing colon.\<close>

definition lookupText :: "jsstr \<Rightarrow> jsstr" where
  "lookupText txt = textWithoutColon (detectColonSuffix (cleanString txt))"

section \<open>The passes of the markup rewriter\<close>



text \<open>
  The texts a callback hands to \<^verbatim>\<open>getKeyForChinese\<close> on a match. Which texts are looked
  up depends on the matched text only, never on the dictionary.
\<close>

definition segmentLookups :: "jsstr \<Rightarrow> jsstr list" where
  "segmentLookups seg = (if isOnlyChinese (cleanString seg) then [lookupText seg] else [])"



text \<open>The state after adding texts to the unmatched set, in order.\<close>

definition addAll :: "jsstr list \<Rightarrow> conv_state \<Rightarrow> conv_state" where
  "addAll ts st = st\<lparr>unmatchedTexts := foldl (\<lambda>u t. setAdd t u) (unmatchedTexts st) ts\<rparr>"




section \<open>Syntax trees (scriptParser.js)\<close>

text \<open>
  The nodes that \<^verbatim>\<open>recast.parse\<close> builds, with the fields that the rewriter reads: a
  node type, names, literal values, operators and the child nodes in the order in which
  \<^verbatim>\<open>visit\<close> walks them. \<open>StringLiteral\<close> is a \<^verbatim>\<open>Literal\<close> or \<^verbatim>\<open>StringLiteral\<close> whose value is
  a string, \<open>OtherLiteral\<close> any other literal, \<open>Property\<close> a \<^verbatim>\<open>Property\<close> or
  \<^verbatim>\<open>ObjectProperty\<close>; a \<open>TemplateLiteral\<close> holds the cooked text of its quasis and its
  expressions; \<open>OtherNode\<close> is a node of any other type with its children.
\<close>

datatype node =
    Identifier jsstr
  | StringLiteral jsstr
  | OtherLiteral jsstr
  | TemplateLiteral "jsstr list" "node list"
  | BinaryExpression jsstr node node
  | MemberExpression node node
  | CallExpression node "node list"
  | Property node node
  | ObjectExpression "node list"
  | OtherNode jsstr "node list"

text \<open>What the \<^verbatim>\<open>try\<close> block of \<^verbatim>\<open>convertScript\<close> can catch.\<close>

datatype error = ParseError | BuilderError

text \<open>
  The child nodes in visiting order, and the node with its children replaced: a visitor
  that replaces a child writes the new child into its parent.
\<close>

fun children :: "node \<Rightarrow> node list" where
  "children (Identifier x) = []"
| "children (StringLiteral s) = []"
| "children (OtherLiteral raw) = []"
| "children (TemplateLiteral quasis expressions) = expressions"
| "children (BinaryExpression operator left right) = [left, right]"
| "children (MemberExpression object property) = [object, property]"
| "children (CallExpression callee arguments) = callee # arguments"
| "children (Property key v) = [key, v]"
| "children (ObjectExpression properties) = properties"
| "children (OtherNode ty cs) = cs"

fun rebuild :: "node \<Rightarrow> node list \<Rightarrow> node" where
  "rebuild (TemplateLiteral quasis expressions) cs = TemplateLiteral quasis cs"
| "rebuild (BinaryExpression operator left right) [l, r] = BinaryExpression operator l r"
| "rebuild (MemberExpression object property) [obj, p] = MemberExpression obj p"
| "rebuild (CallExpression callee arguments) (c # as) = CallExpression c as"
| "rebuild (Property key v) [k, w] = Property k w"
| "rebuild (ObjectExpression properties) cs = ObjectExpression cs"
| "rebuild (OtherNode ty cs') cs = OtherNode ty cs"
| "rebuild n cs = n"

text \<open>
  A path is the chain of \<^verbatim>\<open>path.parent\<close>: the parent nodes, nearest first, each with the
  position of the child on the way down.
\<close>

type_synonym frame = "node \<times> nat"

definition nodeName :: "node \<Rightarrow> jsstr option" where
  "nodeName n = (case n of Identifier x \<Rightarrow> Some x | _ \<Rightarrow> None)"

definition isConsoleCallNode :: "node \<Rightarrow> bool" where
  "isConsoleCallNode n =
     (case n of
        CallExpression callee arguments \<Rightarrow>
          (case callee of
             MemberExpression object property \<Rightarrow> nodeName object = Some (ascii ''console'')
           | _ \<Rightarrow> False)
      | _ \<Rightarrow> False)"

definition isInConsoleCall :: "frame list \<Rightarrow> bool" where
  "isInConsoleCall path = list_ex (\<lambda>parent. isConsoleCallNode (fst parent)) path"

definition isI18nCallNode :: "node \<Rightarrow> bool" where
  "isI18nCallNode n =
     (case n of
        CallExpression callee arguments \<Rightarrow>
          (case callee of
             MemberExpression object property \<Rightarrow>
               ((nodeName object = Some (ascii ''i18n'') \<or> nodeName object = Some (ascii ''$i18n''))
                  \<and> nodeName property = Some (ascii ''t''))
               \<or> nodeName property = Some (ascii ''$t'')
           | Identifier x \<Rightarrow> x = ascii ''$t''
           | _ \<Rightarrow> False)
      | _ \<Rightarrow> False)"

definition isInI18nCall :: "frame list \<Rightarrow> bool" where
  "isInI18nCall path = (case path of [] \<Rightarrow> False | parent # _ \<Rightarrow> isI18nCallNode (fst parent))"

definition isObjectPropertyKey :: "frame list \<Rightarrow> bool" where
  "isObjectPropertyKey path =
     (case path of
        [] \<Rightarrow> False
      | parent # _ \<Rightarrow> (case fst parent of Property key v \<Rightarrow> snd parent = 0 | _ \<Rightarrow> False))"

definition parentIsPlus :: "frame list \<Rightarrow> bool" where
  "parentIsPlus path =
     (case path of
        [] \<Rightarrow> False
      | parent # _ \<Rightarrow>
          (case fst parent of
             BinaryExpression operator left right \<Rightarrow> operator = ascii ''+''
           | _ \<Rightarrow> False))"

text \<open>\<^verbatim>\<open>containsStringLiteral\<close> and \<^verbatim>\<open>collectBinaryParts\<close>.\<close>

fun containsStringLiteral :: "node \<Rightarrow> bool" where
  "containsStringLiteral (StringLiteral s) = True"
| "containsStringLiteral (BinaryExpression operator left right) =
     (if operator = ascii ''+'' then containsStringLiteral left \<or> containsStringLiteral right
      else False)"
| "containsStringLiteral n = False"

datatype part = PString jsstr | PExpression node

fun collect :: "node \<Rightarrow> part list" where
  "collect (BinaryExpression operator left right) =
     (if operator = ascii ''+'' then
        (if containsStringLiteral left \<or> containsStringLiteral right
         then collect left @ collect right
         else [PExpression (BinaryExpression operator left right)])
      else [PExpression (BinaryExpression operator left right)])"
| "collect (StringLiteral s) = [PString s]"
| "collect n = [PExpression n]"

definition isStringPart :: "part \<Rightarrow> bool" where
  "isStringPart p = (case p of PString s \<Rightarrow> True | PExpression e \<Rightarrow> False)"

fun composeParts :: "part list \<Rightarrow> jsstr \<Rightarrow> (jsstr \<times> node) list \<Rightarrow> jsstr \<times> (jsstr \<times> node) list" where
  "composeParts [] templateText variables = (templateText, variables)"
| "composeParts (PString v # ps) templateText variables =
     composeParts ps (templateText @ v) variables"
| "composeParts (PExpression e # ps) templateText variables =
     (let paramName = ascii ''param'' @ decimal (length variables + 1)
      in composeParts ps (templateText @ [0x7B] @ paramName @ [0x7D])
           (variables @ [(paramName, e)]))"

text \<open>The nodes that the builders produce: \<^verbatim>\<open>$i18n.t(key)\<close>, with or without parameters.\<close>

definition i18nCallee :: node where
  "i18nCallee = MemberExpression (Identifier (ascii ''$i18n'')) (Identifier (ascii ''t''))"

definition callPlain :: "jsstr \<Rightarrow> node" where
  "callPlain key = CallExpression i18nCallee [StringLiteral key]"

definition callWithParams :: "jsstr \<Rightarrow> node list \<Rightarrow> node" where
  "callWithParams key properties =
     CallExpression i18nCallee [StringLiteral key, ObjectExpression properties]"

definition withColon :: "colon_suffix \<Rightarrow> node \<Rightarrow> node" where
  "withColon d i18nCall =
     (if hasColonSuffix d
      then BinaryExpression (ascii ''+'') i18nCall (StringLiteral (colonChar d))
      else i18nCall)"

text \<open>
  A visitor method ends in one of four ways: it calls \<^verbatim>\<open>this.traverse(path)\<close> on the node
  as it is (the flag says whether \<^verbatim>\<open>markProcessedNodes\<close> has marked the children), it
  replaces the node and traverses the new one, it replaces the node and returns false,
  or a builder throws. \<^verbatim>\<open>processedNodes\<close> holds a node exactly when the visitor of an
  enclosing concatenation has marked it just before traversing it, so the set is the
  flag \<open>processed\<close> handed down: the children of a marked \<^verbatim>\<open>BinaryExpression\<close> are marked,
  the children of any other node are not.
\<close>

datatype action = Traverse bool | ReplaceTraverse node | ReplaceStop node | Throw error

definition visitBinaryExpression :: "frame list \<Rightarrow> bool \<Rightarrow> node \<Rightarrow> conv_state \<Rightarrow> action \<times> conv_state" where
  "visitBinaryExpression path processed node st =
     (if processed then (Traverse True, st)
      else if (case node of BinaryExpression operator left right \<Rightarrow> operator \<noteq> ascii ''+''
               | _ \<Rightarrow> True)
        then (Traverse False, st)
      else if isInConsoleCall path then (Traverse False, st)
      else if isInI18nCall path then (Traverse False, st)
      else let parts = collect node in
        if \<not> list_ex isStringPart parts then (Traverse False, st)
        else (case composeParts parts [] [] of
          (templateText, variables) \<Rightarrow>
            (let cleaned = cleanString templateText in
             if \<not> isOnlyChinese cleaned then (Traverse False, st)
             else let d = detectColonSuffix cleaned;
                      finalText = (if hasColonSuffix d then textWithoutColon d else cleaned)
               in (case getKeyForChinese finalText st of
                     (None, st') \<Rightarrow> (Traverse True, st')
                   | (Some key, st') \<Rightarrow>
                       (ReplaceStop
                          (withColon d
                             (if length variables > 0
                              then callWithParams key
                                     (map (\<lambda>v. Property (Identifier (fst v)) (snd v)) variables)
                              else callPlain key)),
                        st')))))"

definition visitLiteral :: "frame list \<Rightarrow> bool \<Rightarrow> jsstr \<Rightarrow> conv_state \<Rightarrow> action \<times> conv_state" where
  "visitLiteral path processed v st =
     (if processed then (Traverse False, st)
      else if parentIsPlus path then (Traverse False, st)
      else if isObjectPropertyKey path then (Traverse False, st)
      else if isInConsoleCall path then (Traverse False, st)
      else if isInI18nCall path then (Traverse False, st)
      else let cleaned = cleanString v in
        if isOnlyChinese cleaned then
          (let d = detectColonSuffix cleaned in
           if hasColonSuffix d then
             (case getKeyForChinese (textWithoutColon d) st of
                (None, st') \<Rightarrow> (Traverse False, st')
              | (Some key, st') \<Rightarrow>
                  (ReplaceTraverse
                     (BinaryExpression (ascii ''+'') (callPlain key) (StringLiteral (colonChar d))),
                   st'))
           else
             (case getKeyForChinese cleaned st of
                (None, st') \<Rightarrow> (Traverse False, st')
              | (Some key, st') \<Rightarrow> (ReplaceTraverse (callPlain key), st')))
        else (Traverse False, st))"

text \<open>
  \<^verbatim>\<open>getTemplateString\<close>; \<open>printCode\<close> stands for \<^verbatim>\<open>recast.print(node).code\<close>.
\<close>

fun getTemplateString :: "(node \<Rightarrow> jsstr) \<Rightarrow> jsstr list \<Rightarrow> node list \<Rightarrow> jsstr" where
  "getTemplateString printCode [] expressions = []"
| "getTemplateString printCode (q # quasis) [] = q @ getTemplateString printCode quasis []"
| "getTemplateString printCode (q # quasis) (e # expressions) =
     q @ ascii ''${'' @ printCode e @ ascii ''}'' @ getTemplateString printCode quasis expressions"

text \<open>
  The builder of a property throws when \<^verbatim>\<open>node.expressions[index]\<close> is undefined, that
  is when the text has more placeholders than the literal has expressions.
\<close>

definition visitTemplateLiteral :: "(node \<Rightarrow> jsstr) \<Rightarrow> frame list \<Rightarrow> jsstr list \<Rightarrow> node list \<Rightarrow> conv_state \<Rightarrow> action \<times> conv_state" where
  "visitTemplateLiteral printCode path quasis expressions st =
     (if isInConsoleCall path then (Traverse False, st)
      else if isInI18nCall path then (Traverse False, st)
      else let templateText = getTemplateString printCode quasis expressions;
               cleaned = cleanString templateText in
        if \<not> isOnlyChinese cleaned then (Traverse False, st)
        else if length expressions > 0 then
          (let v = extractTemplateVars templateText;
               d = detectColonSuffix (vtext v);
               finalText = (if hasColonSuffix d then textWithoutColon d else vtext v)
           in (case getKeyForChinese finalText st of
                 (None, st') \<Rightarrow> (Traverse False, st')
               | (Some key, st') \<Rightarrow>
                   if length (params v) > length expressions then (Throw BuilderError, st')
                   else (ReplaceTraverse
                           (withColon d
                              (callWithParams key
                                 (map (\<lambda>pe. Property (Identifier (fst (fst pe))) (snd pe))
                                    (zip (params v) expressions)))),
                         st')))
        else
          (let d = detectColonSuffix cleaned;
               finalText = (if hasColonSuffix d then textWithoutColon d else cleaned)
           in (case getKeyForChinese finalText st of
                 (None, st') \<Rightarrow> (Traverse False, st')
               | (Some key, st') \<Rightarrow> (ReplaceTraverse (withColon d (callPlain key)), st'))))"

text \<open>The method that \<^verbatim>\<open>visit\<close> selects for a node; a node without one is traversed.\<close>

definition visitMethod :: "(node \<Rightarrow> jsstr) \<Rightarrow> frame list \<Rightarrow> bool \<Rightarrow> node \<Rightarrow> conv_state \<Rightarrow> action \<times> conv_state" where
  "visitMethod printCode path processed node st =
     (case node of
        BinaryExpression operator left right \<Rightarrow> visitBinaryExpression path processed node st
      | StringLiteral v \<Rightarrow> visitLiteral path processed v st
      | OtherLiteral raw \<Rightarrow> (Traverse False, st)
      | TemplateLiteral quasis expressions \<Rightarrow>
          visitTemplateLiteral printCode path quasis expressions st
      | _ \<Rightarrow> (Traverse False, st))"

text \<open>
  The tree walk of \<^verbatim>\<open>recast.visit\<close>. A rewritten node is traversed again, so the walk is
  not a recursion on the tree; it takes fuel, and \<open>None\<close> means the fuel ran out.
\<close>

datatype outcome = Done node conv_state | Threw error conv_state

fun visit :: "nat \<Rightarrow> (node \<Rightarrow> jsstr) \<Rightarrow> frame list \<Rightarrow> bool \<Rightarrow> node \<Rightarrow> conv_state \<Rightarrow> outcome option"
  and visitChildren :: "nat \<Rightarrow> (node \<Rightarrow> jsstr) \<Rightarrow> frame list \<Rightarrow> bool \<Rightarrow> node \<Rightarrow> node list \<Rightarrow> node list \<Rightarrow> conv_state \<Rightarrow> outcome option" where
  "visit 0 printCode path processed node st = None"
| "visit (Suc fuel) printCode path processed node st =
     (case visitMethod printCode path processed node st of
        (Traverse mark, st') \<Rightarrow>
          visitChildren fuel printCode path mark node [] (children node) st'
      | (ReplaceTraverse node', st') \<Rightarrow>
          visitChildren fuel printCode path False node' [] (children node') st'
      | (ReplaceStop node', st') \<Rightarrow> Some (Done node' st')
      | (Throw e, st') \<Rightarrow> Some (Threw e st'))"
| "visitChildren fuel printCode path mark parent done [] st = Some (Done (rebuild parent done) st)"
| "visitChildren fuel printCode path mark parent done (c # todo) st =
     (case visit fuel printCode ((rebuild parent (done @ c # todo), length done) # path) mark c st of
        None \<Rightarrow> None
      | Some (Threw e st') \<Rightarrow> Some (Threw e st')
      | Some (Done c' st') \<Rightarrow> visitChildren fuel printCode path mark parent (done @ [c']) todo st')"

lemma size_in_list: "(c :: node) \<in> set cs \<Longrightarrow> size c \<le> size_list size cs"
  by (induction cs) auto

lemma children_size: "c \<in> set (children n) \<Longrightarrow> size c < size n"
  by (cases n) (auto simp: less_Suc_eq_le dest: size_in_list)




section \<open>The code rewriter as a function on source text\<close>

text \<open>
  \<^verbatim>\<open>recast\<close> is a library: \<open>parse\<close> is \<^verbatim>\<open>recast.parse\<close>, which throws on text it cannot
  parse, and \<open>print src node\<close> is \<^verbatim>\<open>recast.print(node).code\<close> for a tree parsed from
  \<open>src\<close>.
\<close>

record recast =
  parse :: "jsstr \<Rightarrow> error + node"
  print :: "jsstr \<Rightarrow> node \<Rightarrow> jsstr"

definition convertScript :: "nat \<Rightarrow> recast \<Rightarrow> jsstr \<Rightarrow> conv_state \<Rightarrow> (jsstr \<times> conv_state) option" where
  "convertScript fuel lib scriptContent st =
     (if scriptContent = [] then Some ([], st)
      else
        (case parse lib scriptContent of
           Inl e \<Rightarrow> Some (scriptContent, st)
         | Inr ast \<Rightarrow>
             (case visit fuel (print lib scriptContent) [] False ast st of
                None \<Rightarrow> None
              | Some (Threw e st') \<Rightarrow> Some (scriptContent, st')
              | Some (Done ast' st') \<Rightarrow> Some (print lib scriptContent ast', st'))))"

text \<open>The tree and the unmatched set of an outcome.\<close>

definition outcomeNode :: "outcome option \<Rightarrow> node option" where
  "outcomeNode r = (case r of Some (Done n st) \<Rightarrow> Some n | _ \<Rightarrow> None)"

definition outcomeUnmatched :: "outcome option \<Rightarrow> jsstr list" where
  "outcomeUnmatched r =
     (case r of Some (Done n st) \<Rightarrow> unmatchedTexts st
      | Some (Threw e st) \<Rightarrow> unmatchedTexts st
      | None \<Rightarrow> [])"

section \<open>Example code\<close>

text \<open>
  In the examples every interpolated expression is an identifier, which is printed as
  its name. \<open>fixedLib src ast\<close> parses \<open>src\<close> to \<open>ast\<close>, fails on any other text, and
  prints \<open>ast\<close> as \<open>src\<close>.
\<close>

definition printIdentifier :: "node \<Rightarrow> jsstr" where
  "printIdentifier n = (case n of Identifier x \<Rightarrow> x | _ \<Rightarrow> [])"

definition fixedLib :: "jsstr \<Rightarrow> node \<Rightarrow> recast" where
  "fixedLib src ast =
     \<lparr>parse = (\<lambda>s. if s = src then Inr ast else Inl ParseError),
      print = (\<lambda>s n. if n = ast then src else printIdentifier n)\<rparr>"

text \<open>
  The template literal with the cooked text U+5F53 U+524D U+7528 U+6237 U+FF1A followed
  by the expression \<^verbatim>\<open>username\<close>, and dictionaries with one entry for a text.
\<close>

definition dangqianyonghu :: jsstr where
  "dangqianyonghu = [0x5F53, 0x524D, 0x7528, 0x6237]"

definition userTemplate :: node where
  "userTemplate = TemplateLiteral [dangqianyonghu @ [0xFF1A], []] [Identifier (ascii ''username'')]"

definition userBody :: jsstr where
  "userBody = dangqianyonghu @ [0xFF1A] @ ascii ''{param1}''"

definition userParams :: "node list" where
  "userParams = [Property (Identifier (ascii ''param1'')) (Identifier (ascii ''username''))]"

definition userState :: "jsstr \<Rightarrow> bool \<Rightarrow> conv_state" where
  "userState t skip = initState (Map.empty(t \<mapsto> SingleKey (ascii ''user.current''))) skip None"

text \<open>
  The concatenation \<^verbatim>\<open>"A" + f("B")\<close> for the texts A = U+4F60 U+597D and
  B = U+4E16 U+754C, and what one and two runs make of it.
\<close>

definition nihao :: jsstr where
  "nihao = [0x4F60, 0x597D]"

definition shijie :: jsstr where
  "shijie = [0x4E16, 0x754C]"

definition emptyState :: conv_state where
  "emptyState = initState Map.empty False None"




text \<open>
  A template literal whose only ideographs are in the name of the interpolated
  identifier, the same template string inside a markup interpolation, a template
  literal whose cooked text holds an escaped \<^verbatim>\<open>${a}\<close>, a console call and a call
  without ideographs.
\<close>

definition mingzi :: jsstr where
  "mingzi = [0x540D, 0x5B57]"

definition nameTemplate :: node where
  "nameTemplate = TemplateLiteral [[], ascii ''abc''] [Identifier mingzi]"

definition nameGroup :: jsstr where
  "nameGroup = ascii ''${'' @ mingzi @ ascii ''}abc''"

definition nameMarkup :: jsstr where
  "nameMarkup = ascii ''{{ '' @ [0x60] @ nameGroup @ [0x60] @ ascii '' }}''"

definition escapedTemplate :: node where
  "escapedTemplate = TemplateLiteral [ascii ''${a}'' @ nihao, []] [Identifier (ascii ''b'')]"

definition consoleCall :: node where
  "consoleCall =
     CallExpression (MemberExpression (Identifier (ascii ''console'')) (Identifier (ascii ''log'')))
       [BinaryExpression (ascii ''+'') (StringLiteral nihao) (Identifier (ascii ''x'')),
        CallExpression (Identifier (ascii ''f'')) [TemplateLiteral [shijie] []]]"

definition asciiCall :: node where
  "asciiCall =
     CallExpression (Identifier (ascii ''alert''))
       [BinaryExpression (ascii ''+'') (StringLiteral (ascii ''ok: '')) (Identifier (ascii ''n''))]"



definition asciiSource :: jsstr where
  "asciiSource = ascii ''alert('' @ [0x22] @ ascii ''ok: '' @ [0x22] @ ascii '' + n)''"

definition escapedSource :: jsstr where
  "escapedSource = [0x60, 0x5C] @ ascii ''${a}'' @ nihao @ ascii ''${b}'' @ [0x60]"

definition outcomeThrew :: "outcome option \<Rightarrow> bool" where
  "outcomeThrew r = (case r of Some (Threw e st) \<Rightarrow> True | _ \<Rightarrow> False)"

text \<open>A state that differs from another by texts added to the unmatched set.\<close>

definition adds :: "conv_state \<Rightarrow> conv_state \<Rightarrow> bool" where
  "adds st st' = (\<exists>ts. st' = addAll ts st)"

text \<open>A node on which the walk returns with the given fuel, wherever the node stands.\<close>

definition returns :: "(node \<Rightarrow> jsstr) \<Rightarrow> nat \<Rightarrow> node \<Rightarrow> bool" where
  "returns p fuel n = (\<forall>path processed st. visit fuel p path processed n st \<noteq> None)"

section \<open>Key resolution\<close>

lemma find_hd_filter:
  "find P xs = (if \<exists>x\<in>set xs. P x then Some (hd (filter P xs)) else None)"
  by (induction xs) auto

lemma pdaOther_map:
  "flattenI18nObject pdaOtherPack [] Map.empty wenben =
     Some (KeyList (ascii ''pda.a'') [ascii ''other.a''])"
  by (simp add: pdaOtherPack_def addLeaf_def detectColonSuffix_def endsWithChar_def
      wenben_def ascii_def)

lemma other_map:
  "flattenI18nObject otherPack [] Map.empty wenben = Some (SingleKey (ascii ''other.a''))"
  by (simp add: otherPack_def addLeaf_def detectColonSuffix_def endsWithChar_def
      wenben_def ascii_def)

text \<open>
  C1. For a text whose entry is a list of candidate keys, \<^verbatim>\<open>getKeyForChinese\<close> returns
  the first-seen key that starts with \<^verbatim>\<open>common.\<close> when there is one; else, when a scope
  prefix is set, the first-seen key that starts with the prefix followed by a dot when
  there is one; else the first-seen key of the list is selected: it is returned when no
  scope prefix is set, and with a scope prefix it fails the scope rule, so the text is
  treated as not found. State and unmatched set are unchanged whenever a key is returned.
\<close>

theorem multi_key_priority:
  "i18nMap st t = Some (KeyList k ks) \<Longrightarrow>
   getKeyForChinese t st =
     (if \<exists>c\<in>set (k # ks). startsWith c (ascii ''common.'')
        then (Some (firstWithPrefix (ascii ''common.'') (k # ks)), st)
      else if pathSet st \<and> (\<exists>c\<in>set (k # ks). startsWith c (pathDot st))
        then (Some (firstWithPrefix (pathDot st) (k # ks)), st)
      else if \<not> pathSet st then (Some k, st)
      else notFound t st)"
  unfolding getKeyForChinese_def firstWithPrefix_def
  by (simp only: find_hd_filter) (auto simp: isKeyPathMatched_def)

text \<open>
  The four resolutions of the disambiguation law: candidates a.x, common.y, b.z with no
  scope and with scope b give common.y; candidates a.x, b.z with scope b give b.z and
  with no scope a.x.
\<close>

theorem multi_key_priority_witness:
  "getKeyForChinese textT (abcState None) = (Some (ascii ''common.y''), abcState None) \<and>
   getKeyForChinese textT (abcState (Some (ascii ''b''))) =
     (Some (ascii ''common.y''), abcState (Some (ascii ''b''))) \<and>
   getKeyForChinese textT (abState (Some (ascii ''b''))) =
     (Some (ascii ''b.z''), abState (Some (ascii ''b''))) \<and>
   getKeyForChinese textT (abState None) = (Some (ascii ''a.x''), abState None)"
proof -
  have m1: "\<And>p. i18nMap (abcState p) textT =
      Some (KeyList (ascii ''a.x'') [ascii ''common.y'', ascii ''b.z''])"
    by (simp add: abcState_def initState_def setConvertOptions_def)
  have m2: "\<And>p. i18nMap (abState p) textT = Some (KeyList (ascii ''a.x'') [ascii ''b.z''])"
    by (simp add: abState_def initState_def setConvertOptions_def)
  show ?thesis
    using multi_key_priority [OF m1 [of None]]
      multi_key_priority [OF m1 [of "Some (ascii ''b'')"]]
      multi_key_priority [OF m2 [of "Some (ascii ''b'')"]]
      multi_key_priority [OF m2 [of None]]
    by (simp add: firstWithPrefix_def startsWith_def ascii_def pathSet_def pathDot_def
        abcState_def abState_def initState_def setConvertOptions_def)
qed

text \<open>
  C4. When the entry of a text is a single key, a scope prefix is set, and the key starts
  neither with \<^verbatim>\<open>common.\<close> nor with the prefix followed by a dot, the text is treated as
  not found: it is added to the unmatched set and the result is absent in skip mode and
  the text itself otherwise. With scope pda, the pack \<^verbatim>\<open>{pda: {a: T}, other: {a: T}}\<close>
  resolves T to pda.a, and the pack \<^verbatim>\<open>{other: {a: T}}\<close> resolves T as unmatched.
\<close>

theorem single_key_scope_filter:
  "(i18nMap st t = Some (SingleKey k) \<and> matchPath st = Some p \<and> p \<noteq> [] \<and>
      \<not> startsWith k (ascii ''common.'') \<and> \<not> startsWith k (p @ ascii ''.'') \<longrightarrow>
      getKeyForChinese t st =
        (if skipUnmatched st then None else Some t,
         st\<lparr>unmatchedTexts := setAdd t (unmatchedTexts st)\<rparr>) \<and>
      t \<in> set (unmatchedTexts (snd (getKeyForChinese t st)))) \<and>
   getKeyForChinese wenben (packState pdaOtherPack skip) =
     (Some (ascii ''pda.a''), packState pdaOtherPack skip) \<and>
   getKeyForChinese wenben (packState otherPack skip) =
     (if skip then None else Some wenben,
      (packState otherPack skip)\<lparr>unmatchedTexts := [wenben]\<rparr>)"
proof (intro conjI impI)
  assume h: "i18nMap st t = Some (SingleKey k) \<and> matchPath st = Some p \<and> p \<noteq> [] \<and>
      \<not> startsWith k (ascii ''common.'') \<and> \<not> startsWith k (p @ ascii ''.'')"
  then show g: "getKeyForChinese t st =
        (if skipUnmatched st then None else Some t,
         st\<lparr>unmatchedTexts := setAdd t (unmatchedTexts st)\<rparr>)"
    by (simp add: getKeyForChinese_def isKeyPathMatched_def pathSet_def pathDot_def
        notFound_def)
  show "t \<in> set (unmatchedTexts (snd (getKeyForChinese t st)))"
    by (simp add: g setAdd_def)
next
  show "getKeyForChinese wenben (packState pdaOtherPack skip) =
     (Some (ascii ''pda.a''), packState pdaOtherPack skip)"
    by (simp add: getKeyForChinese_def packState_def initState_def setConvertOptions_def
        pdaOther_map pathSet_def pathDot_def startsWith_def ascii_def)
next
  show "getKeyForChinese wenben (packState otherPack skip) =
     (if skip then None else Some wenben,
      (packState otherPack skip)\<lparr>unmatchedTexts := [wenben]\<rparr>)"
    by (simp add: getKeyForChinese_def packState_def initState_def setConvertOptions_def
        other_map pathSet_def pathDot_def startsWith_def ascii_def isKeyPathMatched_def
        notFound_def setAdd_def)
qed

theorem single_key_scope_filter_witness:
  "getKeyForChinese wenben (packState otherPack True) =
     (None, (packState otherPack True)\<lparr>unmatchedTexts := [wenben]\<rparr>) \<and>
   getKeyForChinese wenben (packState otherPack False) =
     (Some wenben, (packState otherPack False)\<lparr>unmatchedTexts := [wenben]\<rparr>)"
proof -
  have a: "\<And>skip. i18nMap (packState otherPack skip) wenben =
        Some (SingleKey (ascii ''other.a'')) \<and>
      matchPath (packState otherPack skip) = Some (ascii ''pda'') \<and> ascii ''pda'' \<noteq> [] \<and>
      \<not> startsWith (ascii ''other.a'') (ascii ''common.'') \<and>
      \<not> startsWith (ascii ''other.a'') (ascii ''pda'' @ ascii ''.'')"
    by (simp add: packState_def initState_def setConvertOptions_def other_map
        startsWith_def ascii_def)
  have s: "\<And>skip. skipUnmatched (packState otherPack skip) = skip \<and>
      unmatchedTexts (packState otherPack skip) = []"
    by (simp add: packState_def initState_def setConvertOptions_def)
  show ?thesis
    using single_key_scope_filter
        [of "packState otherPack True" wenben "ascii ''other.a''" "ascii ''pda''" True]
      single_key_scope_filter
        [of "packState otherPack False" wenben "ascii ''other.a''" "ascii ''pda''" False]
      a [of True] a [of False]
    by (simp add: s setAdd_def)
qed

section \<open>Skip mode in the markup rewriter\<close>

lemma addAll_simps [simp]:
  "addAll [] st = st"
  "skipUnmatched (addAll ts st) = skipUnmatched st"
  "i18nMap (addAll ts st) = i18nMap st"
  "matchPath (addAll ts st) = matchPath st"
  by (simp_all add: addAll_def)


lemma isKeyPathMatched_addAll [simp]: "isKeyPathMatched (addAll ts st) k = isKeyPathMatched st k"
  by (simp add: isKeyPathMatched_def pathSet_def pathDot_def)

lemma noUsableKey_addAll [simp]: "noUsableKey (addAll ts st) t = noUsableKey st t"
  by (simp add: noUsableKey_def split: option.splits entry.splits)









lemma segmentLookups_Nil [simp]: "segmentLookups [] = []"
  by (simp add: segmentLookups_def isOnlyChinese_def cleanString_def)











lemma adds_addAll [simp]: "adds st (addAll ts st)"
  unfolding adds_def by blast












section \<open>Walking a tree that is left unchanged\<close>

lemma rebuild_children [simp]: "rebuild n (children n) = n"
  by (cases n) auto








lemma visitChildren_unchanged:
  "(\<And>c i. c \<in> set todo \<Longrightarrow>
      visit fuel p ((rebuild parent (done @ todo), i) # path) mark c st = Some (Done c st)) \<Longrightarrow>
   visitChildren fuel p path mark parent done todo st =
     Some (Done (rebuild parent (done @ todo)) st)"
proof (induction todo arbitrary: "done")
  case Nil
  then show ?case by simp
next
  case (Cons c todo)
  have "visit fuel p ((rebuild parent (done @ c # todo), length done) # path) mark c st =
      Some (Done c st)"
    by (rule Cons.prems) simp
  moreover have "visitChildren fuel p path mark parent (done @ [c]) todo st =
      Some (Done (rebuild parent ((done @ [c]) @ todo)) st)"
    by (rule Cons.IH) (use Cons.prems in simp)
  ultimately show ?case by simp
qed

lemma traverse_unchanged:
  assumes "visitMethod p path processed n st = (Traverse mark, st)"
    and "\<And>c i. c \<in> set (children n) \<Longrightarrow>
      visit fuel p ((n, i) # path) mark c st = Some (Done c st)"
  shows "visit (Suc fuel) p path processed n st = Some (Done n st)"
  using assms visitChildren_unchanged [of "children n" fuel p n "[]" path mark st]
  by simp

lemma console_method:
  "isInConsoleCall path \<Longrightarrow>
   \<exists>mark. visitMethod p path processed n st = (Traverse mark, st)"
  by (cases n)
    (auto simp: visitMethod_def visitBinaryExpression_def visitLiteral_def
      visitTemplateLiteral_def)

lemma console_below: "isInConsoleCall path \<Longrightarrow> isInConsoleCall (f # path)"
  by (simp add: isInConsoleCall_def)

lemma console_unchanged:
  "isInConsoleCall path \<Longrightarrow> size n < fuel \<Longrightarrow>
   visit fuel p path processed n st = Some (Done n st)"
proof (induction fuel arbitrary: path processed n)
  case 0
  then show ?case by simp
next
  case (Suc fuel)
  obtain mark where m: "visitMethod p path processed n st = (Traverse mark, st)"
    using console_method [OF Suc.prems(1)] by blast
  show ?case
  proof (rule traverse_unchanged [OF m])
    fix c i
    assume "c \<in> set (children n)"
    then have "size c < fuel" using children_size [of c n] Suc.prems(2) by simp
    then show "visit fuel p ((n, i) # path) mark c st = Some (Done c st)"
      by (intro Suc.IH console_below Suc.prems(1))
  qed
qed










lemma leaf_unchanged:
  "children n = [] \<Longrightarrow> visitMethod p path processed n st = (Traverse mark, st) \<Longrightarrow>
   visit (Suc fuel) p path processed n st = Some (Done n st)"
  by (rule traverse_unchanged) simp_all

lemma i18n_literal_method:
  "isInI18nCall path \<Longrightarrow> visitMethod p path processed (StringLiteral v) st = (Traverse False, st)"
  by (simp add: visitMethod_def visitLiteral_def)

lemma callee_unchanged:
  "visit (Suc (Suc fuel)) p path processed i18nCallee st = Some (Done i18nCallee st)"
proof (rule traverse_unchanged)
  show "visitMethod p path processed i18nCallee st = (Traverse False, st)"
    by (simp add: visitMethod_def i18nCallee_def)
next
  fix c i
  assume "c \<in> set (children i18nCallee)"
  then have "\<exists>x. c = Identifier x" by (auto simp: i18nCallee_def)
  then show "visit (Suc fuel) p ((i18nCallee, i) # path) False c st = Some (Done c st)"
    by (auto intro!: leaf_unchanged simp: visitMethod_def)
qed

lemma callPlain_unchanged:
  "visit (Suc (Suc (Suc fuel))) p path processed (callPlain key) st =
     Some (Done (callPlain key) st)"
proof (rule traverse_unchanged)
  show "visitMethod p path processed (callPlain key) st = (Traverse False, st)"
    by (simp add: visitMethod_def callPlain_def)
next
  fix c i
  assume "c \<in> set (children (callPlain key))"
  then consider "c = i18nCallee" | "c = StringLiteral key" by (auto simp: callPlain_def)
  then show "visit (Suc (Suc fuel)) p ((callPlain key, i) # path) False c st = Some (Done c st)"
  proof cases
    case 1
    then show ?thesis by (simp only: callee_unchanged)
  next
    case 2
    have "isInI18nCall ((callPlain key, i) # path)"
      by (simp add: isInI18nCall_def isI18nCallNode_def callPlain_def i18nCallee_def nodeName_def)
    then show ?thesis
      unfolding 2 by (intro leaf_unchanged [OF _ i18n_literal_method]) simp_all
  qed
qed




section \<open>The walk returns\<close>

lemma visit_mono:
  "visit fuel p path processed n st = Some r \<Longrightarrow> visit (Suc fuel) p path processed n st = Some r"
  "visitChildren fuel p path mark parent done todo st = Some r \<Longrightarrow>
   visitChildren (Suc fuel) p path mark parent done todo st = Some r"
proof (induction fuel p path processed n st and fuel p path mark parent "done" todo st
    arbitrary: r and r rule: visit_visitChildren.induct)
  case (1 p path processed n st)
  then show ?case by simp
next
  case (2 fuel p path processed n st)
  obtain a st' where m: "visitMethod p path processed n st = (a, st')"
    by (cases "visitMethod p path processed n st")
  show ?case
  proof (cases a)
    case (Traverse mark)
    with 2 m show ?thesis by simp
  next
    case (ReplaceTraverse n')
    with 2 m show ?thesis by simp
  next
    case (ReplaceStop n')
    with 2 m show ?thesis by simp
  next
    case (Throw e)
    with 2 m show ?thesis by simp
  qed
next
  case (3 fuel p path mark parent "done" st)
  then show ?case by simp
next
  case (4 fuel p path mark parent "done" c todo st)
  let ?v = "visit fuel p ((rebuild parent (done @ c # todo), length done) # path) mark c st"
  from "4.prems" obtain o1 where o: "?v = Some o1" by (auto split: option.splits)
  then have s: "visit (Suc fuel) p ((rebuild parent (done @ c # todo), length done) # path)
      mark c st = Some o1"
    by (rule "4.IH"(1))
  show ?case
  proof (cases o1)
    case (Done c' st')
    with "4.prems" o have "visitChildren fuel p path mark parent (done @ [c']) todo st' = Some r"
      by simp
    then have "visitChildren (Suc fuel) p path mark parent (done @ [c']) todo st' = Some r"
      using "4.IH"(2) o Done by blast
    then show ?thesis
      using s Done by (simp del: visit.simps)
  next
    case (Threw e st')
    with "4.prems" o s show ?thesis by (auto simp del: visit.simps)
  qed
qed

lemma returns_mono: "returns p fuel n \<Longrightarrow> fuel \<le> fuel' \<Longrightarrow> returns p fuel' n"
proof (induction "fuel' - fuel" arbitrary: fuel')
  case 0
  then show ?case by simp
next
  case (Suc d)
  then obtain k where k: "fuel' = Suc k" "fuel \<le> k" "d = k - fuel"
    by (cases fuel') auto
  from Suc(1) [OF k(3) Suc(3) k(2)] show ?case
    unfolding returns_def k(1) by (metis not_None_eq visit_mono(1))
qed

lemma visitChildren_total:
  "(\<And>c. c \<in> set todo \<Longrightarrow> returns p fuel c) \<Longrightarrow>
   visitChildren fuel p path mark parent done todo st \<noteq> None"
proof (induction todo arbitrary: "done" st)
  case Nil
  then show ?case by simp
next
  case (Cons c todo)
  have c: "visit fuel p ((rebuild parent (done @ c # todo), length done) # path) mark c st \<noteq> None"
    using Cons.prems [of c] by (simp add: returns_def)
  have r: "\<And>d s. visitChildren fuel p path mark parent d todo s \<noteq> None"
    by (rule Cons.IH) (use Cons.prems in simp)
  show ?case
    using c r by (auto split: option.splits outcome.splits)
qed

lemma returns_traversed:
  assumes "\<And>path processed st. \<exists>mark st'. visitMethod p path processed n st = (Traverse mark, st')"
    and "\<And>c. c \<in> set (children n) \<Longrightarrow> returns p fuel c"
  shows "returns p (Suc fuel) n"
  unfolding returns_def
proof (intro allI)
  fix path processed st
  obtain mark st' where "visitMethod p path processed n st = (Traverse mark, st')"
    using assms(1) by blast
  then show "visit (Suc fuel) p path processed n st \<noteq> None"
    using visitChildren_total [of "children n" p fuel path mark n "[]" st'] assms(2)
    by simp
qed

lemma returns_identifier: "returns p (Suc fuel) (Identifier x)"
  by (rule returns_traversed) (auto simp: visitMethod_def)

lemma returns_callee: "returns p (Suc (Suc fuel)) i18nCallee"
  by (rule returns_traversed)
    (auto simp: visitMethod_def i18nCallee_def returns_identifier)

lemma literal_replacement:
  "visitMethod p path processed (StringLiteral v) st = (ReplaceTraverse n', st') \<Longrightarrow>
   (\<exists>key. n' = callPlain key) \<or>
   (\<exists>key c. (c = 0x3A \<or> c = 0xFF1A) \<and>
      n' = BinaryExpression (ascii ''+'') (callPlain key) (StringLiteral [c]))"
  by (auto simp: visitMethod_def visitLiteral_def Let_def detectColonSuffix_def
      split: if_splits prod.splits option.splits)

lemma callPlain_children:
  "visitChildren (Suc (Suc fuel)) p path False (callPlain key) [] (children (callPlain key)) st =
     Some (Done (callPlain key) st)"
  using callPlain_unchanged [of fuel p path False key st]
  by (simp add: visitMethod_def callPlain_def)

lemma colon_chain_children:
  assumes "c = 0x3A \<or> c = 0xFF1A"
  shows "visitChildren (Suc (Suc (Suc fuel))) p path False
      (BinaryExpression (ascii ''+'') (callPlain key) (StringLiteral [c])) []
      (children (BinaryExpression (ascii ''+'') (callPlain key) (StringLiteral [c]))) st =
    Some (Done (BinaryExpression (ascii ''+'') (callPlain key) (StringLiteral [c])) st)"
proof -
  let ?n = "BinaryExpression (ascii ''+'') (callPlain key) (StringLiteral [c])"
  have "visitChildren (Suc (Suc (Suc fuel))) p path False ?n [] (children ?n) st =
      Some (Done (rebuild ?n ([] @ children ?n)) st)"
  proof (rule visitChildren_unchanged)
    fix e i
    assume "e \<in> set (children ?n)"
    then consider "e = callPlain key" | "e = StringLiteral [c]" by auto
    then show "visit (Suc (Suc (Suc fuel))) p ((rebuild ?n ([] @ children ?n), i) # path)
        False e st = Some (Done e st)"
    proof cases
      case 1
      then show ?thesis by (simp only: callPlain_unchanged)
    next
      case 2
      have "visitMethod p ((?n, i) # path) False (StringLiteral [c]) st = (Traverse False, st)"
        by (simp add: visitMethod_def visitLiteral_def parentIsPlus_def)
      then show ?thesis unfolding 2 by (intro leaf_unchanged [where mark = False]) simp_all
    qed
  qed
  then show ?thesis by simp
qed

lemma returns_literal: "returns p (Suc (Suc (Suc (Suc fuel)))) (StringLiteral v)"
  unfolding returns_def
proof (intro allI)
  fix path processed st
  obtain a st' where m: "visitMethod p path processed (StringLiteral v) st = (a, st')"
    by (cases "visitMethod p path processed (StringLiteral v) st")
  show "visit (Suc (Suc (Suc (Suc fuel)))) p path processed (StringLiteral v) st \<noteq> None"
  proof (cases a)
    case (ReplaceTraverse n')
    from literal_replacement [OF m [unfolded ReplaceTraverse]]
    have "visitChildren (Suc (Suc (Suc fuel))) p path False n' [] (children n') st' =
        Some (Done n' st')"
      using callPlain_children [of "Suc fuel" p path _ st'] colon_chain_children [of _ fuel p path _ st']
      by blast
    with m ReplaceTraverse show ?thesis by simp
  qed (use m in simp_all)
qed

lemma returns_property:
  "returns p fuel e \<Longrightarrow> returns p (Suc (Suc fuel)) (Property (Identifier name) e)"
proof (rule returns_traversed)
  fix c
  assume "returns p fuel e" and "c \<in> set (children (Property (Identifier name) e))"
  then consider "c = Identifier name" | "c = e" "returns p fuel e" by auto
  then show "returns p (Suc fuel) c"
    by cases (auto simp: returns_identifier intro: returns_mono)
qed (auto simp: visitMethod_def)

lemma returns_object:
  "(\<And>pr. pr \<in> set properties \<Longrightarrow> returns p fuel pr) \<Longrightarrow>
   returns p (Suc fuel) (ObjectExpression properties)"
  by (rule returns_traversed) (auto simp: visitMethod_def)

lemma returns_call:
  "(\<And>a. a \<in> set arguments \<Longrightarrow> returns p (Suc (Suc fuel)) a) \<Longrightarrow>
   returns p (Suc (Suc (Suc fuel))) (CallExpression i18nCallee arguments)"
  by (rule returns_traversed) (auto simp: visitMethod_def returns_callee)

lemma template_replacement:
  assumes "visitMethod p path processed (TemplateLiteral quasis expressions) st =
      (ReplaceTraverse n', st')"
  shows "\<exists>d key. n' = withColon d (callPlain key) \<or>
    (\<exists>properties. n' = withColon d (callWithParams key properties) \<and>
       (\<forall>pr\<in>set properties. \<exists>name e. pr = Property (Identifier name) e \<and>
          e \<in> set expressions))"
proof -
  define t where "t = getTemplateString p quasis expressions"
  define d1 where "d1 = detectColonSuffix (vtext (extractTemplateVars t))"
  define d2 where "d2 = detectColonSuffix (cleanString t)"
  define properties where "properties =
    map (\<lambda>pe. Property (Identifier (fst (fst pe))) (snd pe))
      (zip (params (extractTemplateVars t)) expressions)"
  have z: "\<forall>pr\<in>set properties. \<exists>name e. pr = Property (Identifier name) e \<and>
      e \<in> set expressions"
    unfolding properties_def by (auto dest: set_zip_rightD)
  have "(\<exists>key. n' = withColon d1 (callWithParams key properties)) \<or>
      (\<exists>key. n' = withColon d2 (callPlain key))"
    using assms
    unfolding t_def d1_def d2_def properties_def
    by (auto simp: visitMethod_def visitTemplateLiteral_def Let_def
        split: if_splits prod.splits option.splits)
  then show ?thesis using z by blast
qed

lemma other_methods:
  assumes "\<forall>v. n \<noteq> StringLiteral v" and "\<forall>quasis expressions. n \<noteq> TemplateLiteral quasis expressions"
  shows "visitMethod p path processed n st \<noteq> (ReplaceTraverse n', st')"
proof (cases n)
  case (BinaryExpression operator left right)
  then show ?thesis
    by (auto simp: visitMethod_def visitBinaryExpression_def Let_def
        split: if_splits prod.splits option.splits)
qed (use assms in \<open>auto simp: visitMethod_def\<close>)

lemma returns_literal_le: "4 \<le> fuel \<Longrightarrow> returns p fuel (StringLiteral v)"
  by (rule returns_mono [OF returns_literal [of p 0]]) simp

lemma returns_callee_le: "2 \<le> fuel \<Longrightarrow> returns p fuel i18nCallee"
  by (rule returns_mono [OF returns_callee [of p 0]]) simp

lemma returns_property_le:
  "returns p g e \<Longrightarrow> g + 2 \<le> fuel \<Longrightarrow> returns p fuel (Property (Identifier name) e)"
  by (rule returns_mono [OF returns_property [of p g e]]) simp_all

lemma returns_object_le:
  "(\<And>pr. pr \<in> set properties \<Longrightarrow> returns p g pr) \<Longrightarrow> g < fuel \<Longrightarrow>
   returns p fuel (ObjectExpression properties)"
  by (rule returns_mono [OF returns_object [of properties p g]]) simp_all

lemma returns_call_le:
  assumes "\<And>a. a \<in> set arguments \<Longrightarrow> returns p g a" and "2 \<le> g" and "g < fuel"
  shows "returns p fuel (CallExpression i18nCallee arguments)"
proof -
  obtain h where h: "g = Suc (Suc h)" using assms(2) by (metis add_2_eq_Suc le_Suc_ex)
  have "returns p (Suc (Suc (Suc h))) (CallExpression i18nCallee arguments)"
    by (rule returns_call) (use assms(1) h in simp)
  then show ?thesis
    by (rule returns_mono) (use assms(3) h in simp)
qed

lemma replacement_children:
  assumes "visitMethod p path processed (TemplateLiteral quasis expressions) st =
      (ReplaceTraverse n', st')"
    and "\<And>e. e \<in> set expressions \<Longrightarrow> returns p fuel e"
    and "c \<in> set (children n')"
  shows "returns p (fuel + 7) c"
proof -
  have lit: "\<And>v. returns p (fuel + 7) (StringLiteral v)"
    by (rule returns_literal_le) simp
  have callee: "returns p (fuel + 7) i18nCallee"
    by (rule returns_callee_le) simp
  have plain: "returns p (fuel + 7) (callPlain key)" for key
    unfolding callPlain_def
    by (rule returns_call_le [where g = 4]) (auto intro: returns_literal_le)
  have obj: "returns p (fuel + 3) (ObjectExpression properties)"
    if pr: "\<forall>pr\<in>set properties. \<exists>name e. pr = Property (Identifier name) e \<and> e \<in> set expressions"
    for properties
  proof (rule returns_object_le [where g = "fuel + 2"])
    fix x
    assume "x \<in> set properties"
    then obtain name e where "x = Property (Identifier name) e" "e \<in> set expressions"
      using pr by blast
    then show "returns p (fuel + 2) x"
      using returns_property_le [OF assms(2), of e "fuel + 2" name] by simp
  qed simp
  have params: "returns p (fuel + 7) (callWithParams key properties)"
    if pr: "\<forall>pr\<in>set properties. \<exists>name e. pr = Property (Identifier name) e \<and> e \<in> set expressions"
    for key properties
    unfolding callWithParams_def
  proof (rule returns_call_le [where g = "fuel + 4"])
    fix a
    assume "a \<in> set [StringLiteral key, ObjectExpression properties]"
    then consider "a = StringLiteral key" | "a = ObjectExpression properties" by auto
    then show "returns p (fuel + 4) a"
    proof cases
      case 1
      then show ?thesis by (auto intro: returns_literal_le)
    next
      case 2
      then show ?thesis
        using returns_mono [OF obj [OF pr], of "fuel + 4"] by simp
    qed
  qed simp_all
  from template_replacement [OF assms(1)] obtain d key where
    "n' = withColon d (callPlain key) \<or>
     (\<exists>properties. n' = withColon d (callWithParams key properties) \<and>
        (\<forall>pr\<in>set properties. \<exists>name e. pr = Property (Identifier name) e \<and>
           e \<in> set expressions))"
    by blast
  then show ?thesis
  proof
    assume "n' = withColon d (callPlain key)"
    then show ?thesis
      using assms(3) lit callee plain
      by (auto simp: withColon_def callPlain_def split: if_splits)
  next
    assume "\<exists>properties. n' = withColon d (callWithParams key properties) \<and>
        (\<forall>pr\<in>set properties. \<exists>name e. pr = Property (Identifier name) e \<and>
           e \<in> set expressions)"
    then obtain properties where n': "n' = withColon d (callWithParams key properties)"
      and pr: "\<forall>pr\<in>set properties. \<exists>name e. pr = Property (Identifier name) e \<and>
           e \<in> set expressions"
      by blast
    have o: "returns p (fuel + 7) (ObjectExpression properties)"
      using returns_mono [OF obj [OF pr], of "fuel + 7"] by simp
    show ?thesis
      using assms(3) lit callee params [OF pr] o n'
      by (auto simp: withColon_def callWithParams_def split: if_splits)
  qed
qed

lemma visit_returns:
  assumes "visitMethod p path processed n st = (a, st')"
    and "\<And>mark. a = Traverse mark \<Longrightarrow>
      visitChildren fuel p path mark n [] (children n) st' \<noteq> None"
    and "\<And>n'. a = ReplaceTraverse n' \<Longrightarrow>
      visitChildren fuel p path False n' [] (children n') st' \<noteq> None"
  shows "visit (Suc fuel) p path processed n st \<noteq> None"
  using assms by (cases a) simp_all

lemma size_in_list_less: "(c :: node) \<in> set cs \<Longrightarrow> size c < size_list size cs"
  by (induction cs) auto

lemma returns_size: "returns p (4 * size n + 4) n"
proof (induction "size n" arbitrary: n rule: less_induct)
  case less
  have kids: "returns p (4 * size c + 4) c" if "c \<in> set (children n)" for c
    by (rule less [OF children_size [OF that]])
  have low: "returns p (4 * size n) c" if "c \<in> set (children n)" for c
  proof (rule returns_mono [OF kids [OF that]])
    show "4 * size c + 4 \<le> 4 * size n" using children_size [OF that] by simp
  qed
  show ?case
  proof (cases "\<exists>v. n = StringLiteral v")
    case True
    then obtain v where v: "n = StringLiteral v" by blast
    show ?thesis unfolding v by (rule returns_literal_le) simp
  next
    case False
    have "visit (Suc (4 * size n + 3)) p path processed n st \<noteq> None" for path processed st
    proof -
      obtain a st' where m: "visitMethod p path processed n st = (a, st')"
        by (cases "visitMethod p path processed n st")
      show ?thesis
      proof (rule visit_returns [OF m])
        fix mark
        show "visitChildren (4 * size n + 3) p path mark n [] (children n) st' \<noteq> None"
        proof (rule visitChildren_total)
          fix c
          assume "c \<in> set (children n)"
          then show "returns p (4 * size n + 3) c"
            by (intro returns_mono [OF low]) simp_all
        qed
      next
        fix n'
        assume a: "a = ReplaceTraverse n'"
        have "\<exists>quasis expressions. n = TemplateLiteral quasis expressions"
        proof (rule ccontr)
          assume "\<not> ?thesis"
          then have "visitMethod p path processed n st \<noteq> (ReplaceTraverse n', st')"
            using False by (intro other_methods) simp_all
          with m a show False by simp
        qed
        then obtain quasis expressions where t: "n = TemplateLiteral quasis expressions"
          by blast
        have e: "returns p (4 * size n - 4) e" if "e \<in> set expressions" for e
        proof -
          have c: "e \<in> set (children n)" using that t by simp
          show ?thesis
          proof (rule returns_mono [OF kids [OF c]])
            show "4 * size e + 4 \<le> 4 * size n - 4"
              using size_in_list_less [OF that] unfolding t by simp
          qed
        qed
        have "0 < size n" unfolding t by simp
        then have g: "4 * size n - 4 + 7 = 4 * size n + 3" by simp
        show "visitChildren (4 * size n + 3) p path False n' [] (children n') st' \<noteq> None"
        proof (rule visitChildren_total)
          fix c
          assume "c \<in> set (children n')"
          from replacement_children [OF m [unfolded t a] e this]
          show "returns p (4 * size n + 3) c" unfolding g by simp
        qed
      qed
    qed
    moreover have "Suc (4 * size n + 3) = 4 * size n + 4" by simp
    ultimately show ?thesis
      unfolding returns_def by (simp del: visit.simps)
  qed
qed

section \<open>The code rewriter\<close>

text \<open>
  C2 as stated fails. For the template literal of the text T followed by a full-width
  colon and \<^verbatim>\<open>${username}\<close>, with the entry T -> user.current, the rewriter does not
  produce a call on user.current joined to a colon literal: the body with the
  placeholder does not end in a colon, so the whole body is looked up, it has no entry,
  and in default mode the call uses the body itself as key.
\<close>

theorem param_call_counterexample:
  "outcomeNode (visit 10 printIdentifier [] False userTemplate (userState dangqianyonghu False)) =
     Some (callWithParams userBody userParams) \<and>
   outcomeNode (visit 10 printIdentifier [] False userTemplate (userState dangqianyonghu False)) \<noteq>
     Some (BinaryExpression (ascii ''+'') (callWithParams (ascii ''user.current'') userParams)
       (StringLiteral [0xFF1A]))"
  by code_simp

text \<open>
  C2 as amended. The rewriter looks up the whole body with the placeholder, T followed
  by the colon and \<^verbatim>\<open>{param1}\<close>. With an entry for that body it rewrites the literal into a
  call on user.current with the parameter object \<^verbatim>\<open>{param1: username}\<close>, the original
  expression node, and appends no colon. With only the entry for T the body is
  unmatched: the call uses the body as key in default mode, and the literal is left as
  it is in skip mode.
\<close>

theorem param_call_whole_body:
  "outcomeNode (visit 10 printIdentifier [] False userTemplate (userState userBody False)) =
     Some (callWithParams (ascii ''user.current'') userParams) \<and>
   outcomeUnmatched (visit 10 printIdentifier [] False userTemplate (userState userBody False)) = [] \<and>
   outcomeNode (visit 10 printIdentifier [] False userTemplate (userState dangqianyonghu False)) =
     Some (callWithParams userBody userParams) \<and>
   outcomeUnmatched (visit 10 printIdentifier [] False userTemplate (userState dangqianyonghu False)) =
     [userBody] \<and>
   outcomeNode (visit 10 printIdentifier [] False userTemplate (userState dangqianyonghu True)) =
     Some userTemplate \<and>
   outcomeUnmatched (visit 10 printIdentifier [] False userTemplate (userState dangqianyonghu True)) =
     [userBody]"
  by code_simp

text \<open>
  C3 on the code path. The template literal \<^verbatim>\<open>`${N}abc`\<close>, where only the identifier N
  has ideographs, has no convertible text once the expressions are stripped
  (\<^verbatim>\<open>hasChinese\<close> is false), but \<^verbatim>\<open>visitTemplateLiteral\<close> tests the text with the
  expression sources in it and rewrites the literal into a call on the key
  \<^verbatim>\<open>{param1}abc\<close>, which it also records as unmatched. The markup pass for the same
  template string, which tests \<^verbatim>\<open>hasChinese\<close>, leaves it as it is and records nothing.
\<close>

theorem template_expression_cjk_rewritten:
  "hasChinese (extractTemplateVars (getTemplateString printIdentifier [[], ascii ''abc''] [Identifier mingzi])) = False \<and>
   outcomeNode (visit 10 printIdentifier [] False nameTemplate emptyState) =
     Some (callWithParams (ascii ''{param1}abc'') [Property (Identifier (ascii ''param1'')) (Identifier mingzi)]) \<and>
   outcomeUnmatched (visit 10 printIdentifier [] False nameTemplate emptyState) = [ascii ''{param1}abc''] \<and>
   fst (cbInterpTemplate nameMarkup [nameGroup] emptyState) = nameMarkup \<and>
   unmatchedTexts (snd (cbInterpTemplate nameMarkup [nameGroup] emptyState)) = []"
  by code_simp








text \<open>
  C9. When parsing fails, or a builder throws while the tree is rewritten,
  \<^verbatim>\<open>convertScript\<close> returns the original code of the region. It never fails itself:
  on every tree the walk returns, given fuel for four steps per node.
\<close>

theorem fail_soft:
  "(parse lib s = Inl e \<longrightarrow> convertScript fuel lib s st = Some (s, st)) \<and>
   (s \<noteq> [] \<and> parse lib s = Inr ast \<and>
      visit fuel (print lib s) [] False ast st = Some (Threw e st') \<longrightarrow>
      convertScript fuel lib s st = Some (s, st')) \<and>
   (parse lib s = Inr ast \<and> 4 * size ast + 4 \<le> fuel \<longrightarrow>
      convertScript fuel lib s st \<noteq> None)"
proof (intro conjI impI)
  assume "parse lib s = Inr ast \<and> 4 * size ast + 4 \<le> fuel"
  then have "visit fuel (print lib s) [] False ast st \<noteq> None"
    using returns_mono [OF returns_size, of ast fuel "print lib s"] by (simp add: returns_def)
  then show "convertScript fuel lib s st \<noteq> None"
    using \<open>parse lib s = Inr ast \<and> 4 * size ast + 4 \<le> fuel\<close>
    by (auto simp: convertScript_def split: option.splits outcome.splits)
qed (auto simp: convertScript_def)

theorem fail_soft_witness:
  "convertScript 10 (fixedLib asciiSource asciiCall) (ascii ''var = ;'') emptyState =
     Some (ascii ''var = ;'', emptyState) \<and>
   map_option fst (convertScript 10 (fixedLib escapedSource escapedTemplate) escapedSource
     emptyState) = Some escapedSource \<and>
   convertScript 20 (fixedLib asciiSource asciiCall) asciiSource emptyState \<noteq> None"
proof -
  let ?lib = "fixedLib escapedSource escapedTemplate"
  have a: "parse (fixedLib asciiSource asciiCall) (ascii ''var = ;'') = Inl ParseError"
    by (simp add: fixedLib_def asciiSource_def ascii_def)
  have b: "escapedSource \<noteq> [] \<and> parse ?lib escapedSource = Inr escapedTemplate"
    by (simp add: fixedLib_def escapedSource_def)
  have "outcomeThrew (visit 10 (print ?lib escapedSource) [] False escapedTemplate emptyState)"
    by code_simp
  then obtain e st' where
    t: "visit 10 (print ?lib escapedSource) [] False escapedTemplate emptyState = Some (Threw e st')"
    by (auto simp: outcomeThrew_def split: option.splits outcome.splits)
  have c: "parse (fixedLib asciiSource asciiCall) asciiSource = Inr asciiCall \<and>
      4 * size asciiCall + 4 \<le> 20"
    by (simp add: fixedLib_def asciiCall_def)
  show ?thesis
    using fail_soft [where lib = "fixedLib asciiSource asciiCall" and s = "ascii ''var = ;''"
        and e = ParseError and fuel = 10 and st = emptyState]
      fail_soft [where lib = ?lib and s = escapedSource and e = e and ast = escapedTemplate
        and fuel = 10 and st = emptyState and st' = st']
      fail_soft [where lib = "fixedLib asciiSource asciiCall" and s = asciiSource
        and ast = asciiCall and fuel = 20 and st = emptyState] a b c t
    by simp
qed

text \<open>
  C10. A node that has a console call among its ancestors, at any depth, is returned
  as it is, with everything below it; so is a console call itself, with all its
  arguments.
\<close>

theorem console_untouched:
  "(isInConsoleCall path \<and> size n < fuel \<longrightarrow>
      visit fuel p path processed n st = Some (Done n st)) \<and>
   (isConsoleCallNode n \<and> size n < fuel \<longrightarrow>
      visit fuel p path processed n st = Some (Done n st))"
proof (intro conjI impI)
  assume "isInConsoleCall path \<and> size n < fuel"
  then show "visit fuel p path processed n st = Some (Done n st)"
    by (simp add: console_unchanged)
next
  assume a: "isConsoleCallNode n \<and> size n < fuel"
  then obtain k where k: "fuel = Suc k" by (cases fuel) auto
  from a have m: "visitMethod p path processed n st = (Traverse False, st)"
    by (cases n) (auto simp: isConsoleCallNode_def visitMethod_def)
  have "visit (Suc k) p path processed n st = Some (Done n st)"
  proof (rule traverse_unchanged [OF m])
    fix c i
    assume "c \<in> set (children n)"
    then have "size c < k" using children_size [of c n] a k by simp
    moreover have "isInConsoleCall ((n, i) # path)"
      using a by (simp add: isInConsoleCall_def)
    ultimately show "visit k p ((n, i) # path) False c st = Some (Done c st)"
      by (simp add: console_unchanged)
  qed
  then show "visit fuel p path processed n st = Some (Done n st)" by (simp add: k)
qed

theorem console_untouched_witness:
  "visit 10 printIdentifier [] False consoleCall emptyState = Some (Done consoleCall emptyState) \<and>
   visit 10 printIdentifier [(consoleCall, 1)] False (StringLiteral nihao) emptyState =
     Some (Done (StringLiteral nihao) emptyState)"
proof -
  have a: "isConsoleCallNode consoleCall"
    by (simp add: isConsoleCallNode_def consoleCall_def nodeName_def)
  have b: "isInConsoleCall [(consoleCall, 1)]"
    by (simp add: isInConsoleCall_def a)
  have c: "size consoleCall < 10" "size (StringLiteral nihao) < 10"
    by (simp_all add: consoleCall_def)
  show ?thesis
    using console_untouched [of "[]" consoleCall 10 printIdentifier False emptyState]
      console_untouched [of "[(consoleCall, 1)]" "StringLiteral nihao" 10 printIdentifier False
        emptyState] a b c
    by simp
qed

end
